theory Spec2Isabelle
  imports Complex_Main
begin

section \<open>Python string primitives used by update_profile.py\<close>

text \<open>
  Strings are lists of characters with code points below 256; \<open>len\<close> is \<open>length\<close>.
  The functions below are the Python built-ins the script applies to such strings:
  \<open>str.split()\<close>, \<open>str.split(sep)\<close>, \<open>str.lower()\<close>, \<open>sub in s\<close>, \<open>sep.join(xs)\<close>,
  \<open>str(n)\<close> on an integer (also what an f-string does with \<open>{n}\<close>), \<open>int(s)\<close> and the
  format \<open>{n:,}\<close>.
\<close>

definition is_space :: "char \<Rightarrow> bool" where
  "is_space c = (c \<in> set [CHR '' '', CHR 0x09, CHR 0x0A, CHR 0x0B, CHR 0x0C, CHR 0x0D,
                            CHR 0x1C, CHR 0x1D, CHR 0x1E, CHR 0x1F, CHR 0x85, CHR 0xA0])"

text \<open>\<open>s.split()\<close>: the maximal runs of characters that are not whitespace, in order.
  The first argument is the run being read, reversed.\<close>

fun split_ws :: "string \<Rightarrow> string \<Rightarrow> string list" where
  "split_ws w [] = (if w = [] then [] else [rev w])"
| "split_ws w (c # cs) =
     (if is_space c then (if w = [] then split_ws [] cs else rev w # split_ws [] cs)
      else split_ws (c # w) cs)"

definition py_split :: "string \<Rightarrow> string list" where
  "py_split s = split_ws [] s"

text \<open>\<open>s.split(sep)\<close> for a separator of one character: every occurrence splits, empty
  pieces are kept, so the result has one more piece than there are separators.\<close>

fun split_on :: "char \<Rightarrow> string \<Rightarrow> string \<Rightarrow> string list" where
  "split_on sep w [] = [rev w]"
| "split_on sep w (c # cs) =
     (if c = sep then rev w # split_on sep [] cs else split_on sep (c # w) cs)"

definition py_split_sep :: "char \<Rightarrow> string \<Rightarrow> string list" where
  "py_split_sep sep s = split_on sep [] s"

definition lower_char :: "char \<Rightarrow> char" where
  "lower_char c =
     (let n = (of_char c :: nat)
      in if (65 \<le> n \<and> n \<le> 90) \<or> (192 \<le> n \<and> n \<le> 222 \<and> n \<noteq> 215)
         then char_of (n + 32) else c)"

definition py_lower :: "string \<Rightarrow> string" where
  "py_lower s = map lower_char s"

fun starts_with :: "string \<Rightarrow> string \<Rightarrow> bool" where
  "starts_with s [] = True"
| "starts_with [] (p # ps) = False"
| "starts_with (c # cs) (p # ps) = (c = p \<and> starts_with cs ps)"

text \<open>\<open>sub in s\<close>: \<open>sub\<close> occurs in \<open>s\<close> as a contiguous piece.\<close>

fun py_in :: "string \<Rightarrow> string \<Rightarrow> bool" where
  "py_in sub [] = (sub = [])"
| "py_in sub (c # cs) = (starts_with (c # cs) sub \<or> py_in sub cs)"

fun py_join :: "string \<Rightarrow> string list \<Rightarrow> string" where
  "py_join sep [] = []"
| "py_join sep [x] = x"
| "py_join sep (x # y # ys) = x @ sep @ py_join sep (y # ys)"

definition is_digit :: "char \<Rightarrow> bool" where
  "is_digit c = (c \<in> set ''0123456789'')"

definition digit_val :: "char \<Rightarrow> nat" where
  "digit_val c = (of_char c :: nat) - 48"

definition digit_char :: "nat \<Rightarrow> char" where
  "digit_char n = ''0123456789'' ! (n mod 10)"

fun digits_of :: "nat \<Rightarrow> string" where
  "digits_of n = (if n < 10 then [digit_char n] else digits_of (n div 10) @ [digit_char (n mod 10)])"

declare digits_of.simps [simp del]

definition py_str :: "int \<Rightarrow> string" where
  "py_str i = (if i < 0 then CHR ''-'' # digits_of (nat (- i)) else digits_of (nat i))"

text \<open>\<open>int(s)\<close> on a token that holds no whitespace: an optional sign, then decimal digits;
  single underscores are allowed between digits. \<open>None\<close> is Python's ValueError.\<close>

fun digs :: "string \<Rightarrow> nat \<Rightarrow> nat option" where
  "digs [] acc = Some acc"
| "digs (c # cs) acc =
     (if is_digit c then digs cs (10 * acc + digit_val c)
      else if c = CHR ''_'' then
        (case cs of
           [] \<Rightarrow> None
         | d # ds \<Rightarrow> if is_digit d then digs ds (10 * acc + digit_val d) else None)
      else None)"

definition parse_nat :: "string \<Rightarrow> nat option" where
  "parse_nat s = (case s of [] \<Rightarrow> None | c # cs \<Rightarrow> if is_digit c then digs cs (digit_val c) else None)"

definition py_int :: "string \<Rightarrow> int option" where
  "py_int s =
     (case s of
        [] \<Rightarrow> None
      | c # cs \<Rightarrow>
          if c = CHR ''-'' then map_option (\<lambda>n. - int n) (parse_nat cs)
          else if c = CHR ''+'' then map_option int (parse_nat cs)
          else map_option int (parse_nat s))"

text \<open>\<open>f"{num:,}"\<close>: the decimal digits in groups of three from the right, separated by
  commas. \<open>group3\<close> works on the reversed digits.\<close>

fun group3 :: "string \<Rightarrow> string" where
  "group3 (a # b # c # d # rest) = a # b # c # CHR '','' # group3 (d # rest)"
| "group3 xs = xs"

definition format_int :: "int \<Rightarrow> string" where
  "format_int num =
     (if num < 0 then CHR ''-'' # rev (group3 (rev (digits_of (nat (- num)))))
      else rev (group3 (rev (digits_of (nat num)))))"

section \<open>Configuration, remote interface and program state\<close>

text \<open>The module-level settings read from the environment.\<close>

record config =
  USER_NAME :: string
  DO_HEAVY :: bool
  FORCE_CACHE :: bool
  MAX_RETRIES :: int
  RETRY_BACKOFF :: real

text \<open>The settings when no environment variable overrides them, for the account \<open>login\<close>.\<close>

definition default_config :: "string \<Rightarrow> config" where
  "default_config login =
     \<lparr>USER_NAME = login, DO_HEAVY = True, FORCE_CACHE = False, MAX_RETRIES = 3, RETRY_BACKOFF = 3 / 2\<rparr>"

text \<open>
  Exceptions. \<open>HttpFailed tag status\<close>, \<open>GraphQLErrors tag messages\<close>,
  \<open>FailedWithoutException tag\<close> and \<open>GuardTriggered\<close> are the four \<open>RuntimeError\<close>s the script
  raises itself; \<open>KeyError\<close> stands for the KeyError or TypeError of subscripting a response
  that lacks the selected field.
\<close>

datatype exn =
    Timeout
  | ConnectionError
  | OtherException
  | HttpFailed string int
  | GraphQLErrors string string
  | FailedWithoutException string
  | KeyError
  | ValueError
  | IndexError
  | FileNotFoundError
  | GuardTriggered

type_synonym cursor = "string option"

text \<open>The three GraphQL queries of the heavy scan with their variables: the repository
  listing (login, cursor), the commit-count probe \<open>history(first: 0)\<close> (owner, repo) and
  the history page \<open>history(first: 100, after: $cursor)\<close> (owner, repo, cursor).\<close>

datatype request =
    ListReposQuery string cursor
  | CommitTotalQuery string string
  | CommitHistoryQuery string string cursor

text \<open>A commit node as the history query selects it: \<open>author{user{login}}\<close> (the user is
  null when no account matches the commit's author), \<open>additions\<close>, \<open>deletions\<close>.\<close>

record commit =
  author_user :: "string option"
  additions :: int
  deletions :: int

text \<open>
  The \<open>data\<close> of a response. \<open>Repositories edges hasNextPage endCursor\<close> is
  \<open>data.user.repositories\<close> with the \<open>nameWithOwner\<close> of every edge.
  \<open>Repository ref\<close> is \<open>data.repository.defaultBranchRef\<close>: \<open>None\<close> when it is null,
  otherwise the \<open>target.history\<close> object, which holds either \<open>totalCount\<close> or
  \<open>edges\<close> and \<open>pageInfo\<close>. \<open>Malformed\<close> is any other shape.
\<close>

datatype history =
    HistoryTotal int
  | HistoryPage "commit list" bool cursor

datatype payload =
    Repositories "string list" bool cursor
  | Repository "history option"
  | Malformed

text \<open>The body of an HTTP response: \<open>NotJson\<close> when \<open>r.json()\<close> raises, otherwise the
  \<open>message\<close> of each entry of \<open>errors\<close> (\<open>None\<close> for an entry without one; the empty list
  when the key is absent or empty) and the data.\<close>

datatype body = NotJson | Json "string option list" payload

text \<open>What one \<open>requests.post\<close> does: it raises, or it returns a status code and a body.\<close>

datatype outcome = Raises exn | Response int body

text \<open>
  The world outside the process: the remote answers a request depending on everything
  exchanged so far; \<open>sha256_hex\<close> is \<open>hashlib.sha256(s.encode()).hexdigest()\<close>;
  \<open>utcnow_iso\<close> is the text of the clock at its \<open>n\<close>-th reading.
\<close>

record env =
  remote :: "(request \<times> outcome) list \<Rightarrow> request \<Rightarrow> outcome"
  sha256_hex :: "string \<Rightarrow> string"
  utcnow_iso :: "nat \<Rightarrow> string"

text \<open>
  The mutable state: the cache file as the list of its lines (\<open>None\<close> when the file does
  not exist; each line with its line terminator, as \<open>readlines\<close> returns it and
  \<open>writelines\<close> takes it), the dictionary \<open>QUERY_COUNT\<close>, every request posted with what came
  back, every duration passed to \<open>time.sleep\<close>, and the number of clock readings.
  The global \<open>RECURSION_GUARD\<close> is passed to \<open>heavy_stats\<close> and returned by it.
\<close>

record state =
  cache_file :: "string list option"
  QUERY_COUNT :: "string \<Rightarrow> int"
  exchanges :: "(request \<times> outcome) list"
  slept :: "real list"
  clock :: nat

section \<open>The remote query client\<close>

text \<open>One pass through the body of the retry loop of \<open>gql\<close> ends in \<open>return data\<close>, in
  \<open>raise\<close>, or in \<open>time.sleep(RETRY_BACKOFF ** attempt); continue\<close>, where the two
  \<open>except\<close> clauses also store the exception in \<open>last_exc\<close>.\<close>

datatype attempt_result = Return payload | Raise exn | Retry "exn option"

text \<open>Both \<open>except\<close> clauses of \<open>gql\<close> have the same body.\<close>

definition handle_exception :: "config \<Rightarrow> int \<Rightarrow> exn \<Rightarrow> attempt_result" where
  "handle_exception cfg attempt e = (if attempt < MAX_RETRIES cfg then Retry (Some e) else Raise e)"

definition gql_attempt :: "config \<Rightarrow> string \<Rightarrow> int \<Rightarrow> outcome \<Rightarrow> attempt_result" where
  "gql_attempt cfg tag attempt out =
     (case out of
        Raises e \<Rightarrow> handle_exception cfg attempt e
      | Response status_code b \<Rightarrow>
          if status_code = 502 \<and> attempt < MAX_RETRIES cfg then Retry None
          else if status_code \<noteq> 200 then handle_exception cfg attempt (HttpFailed tag status_code)
          else
            (case b of
               NotJson \<Rightarrow> handle_exception cfg attempt OtherException
             | Json errors data \<Rightarrow>
                 if errors \<noteq> [] then
                   (let messages = py_join '' | '' (map (\<lambda>e. case e of None \<Rightarrow> [] | Some m \<Rightarrow> m) errors)
                    in if py_in ''rate limit'' (py_lower messages) \<and> attempt < MAX_RETRIES cfg
                       then Retry None
                       else handle_exception cfg attempt (GraphQLErrors tag messages))
                 else Return data))"

text \<open>\<open>for attempt in range(1, MAX_RETRIES + 1)\<close>, from \<open>attempt\<close> on, and the two
  statements after the loop.\<close>

function gql_loop ::
  "env \<Rightarrow> config \<Rightarrow> request \<Rightarrow> string \<Rightarrow> int \<Rightarrow> exn option \<Rightarrow> state \<Rightarrow> (exn + payload) \<times> state" where
  "gql_loop env cfg req tag attempt last_exc s =
     (if MAX_RETRIES cfg < attempt then
        (case last_exc of
           Some e \<Rightarrow> (Inl e, s)
         | None \<Rightarrow> (Inl (FailedWithoutException tag), s))
      else
        (let out = remote env (exchanges s) req;
             s1 = s\<lparr>exchanges := exchanges s @ [(req, out)]\<rparr>
         in case gql_attempt cfg tag attempt out of
              Return data \<Rightarrow> (Inr data, s1)
            | Raise e \<Rightarrow> (Inl e, s1)
            | Retry e \<Rightarrow>
                gql_loop env cfg req tag (attempt + 1)
                  (case e of None \<Rightarrow> last_exc | Some x \<Rightarrow> Some x)
                  (s1\<lparr>slept := slept s1 @ [RETRY_BACKOFF cfg ^ nat attempt]\<rparr>)))"
  by pat_completeness auto
termination
  by (relation "measure (\<lambda>(env, cfg, req, tag, attempt, last_exc, s). nat (MAX_RETRIES cfg + 1 - attempt))") auto

declare gql_loop.simps [simp del]

definition gql :: "env \<Rightarrow> config \<Rightarrow> request \<Rightarrow> string \<Rightarrow> state \<Rightarrow> (exn + payload) \<times> state" where
  "gql env cfg req tag s = gql_loop env cfg req tag 1 None s"

text \<open>\<open>QUERY_COUNT[name] += 1\<close>; every name the script passes is a key of the dictionary.\<close>

definition count_query :: "string \<Rightarrow> state \<Rightarrow> state" where
  "count_query name s = s\<lparr>QUERY_COUNT := (QUERY_COUNT s)(name := QUERY_COUNT s name + 1)\<rparr>"

section \<open>Data collection for the heavy scan\<close>

text \<open>The \<open>while True\<close> loop of \<open>collect_repo_full_names\<close>. The first argument bounds the
  number of pages; \<open>None\<close> is a loop that has not ended within it.\<close>

fun collect_pages ::
  "nat \<Rightarrow> env \<Rightarrow> config \<Rightarrow> string \<Rightarrow> cursor \<Rightarrow> string list \<Rightarrow> state \<Rightarrow> ((exn + string list) \<times> state) option" where
  "collect_pages 0 env cfg login cursor full_names s = None"
| "collect_pages (Suc fuel) env cfg login cursor full_names s =
     (let s1 = count_query ''loc_list_repos'' s
      in case gql env cfg (ListReposQuery login cursor) ''loc_list_repos'' s1 of
           (Inl e, s2) \<Rightarrow> Some (Inl e, s2)
         | (Inr data, s2) \<Rightarrow>
             (case data of
                Repositories edges has_next end_cursor \<Rightarrow>
                  if \<not> has_next then Some (Inr (full_names @ edges), s2)
                  else collect_pages fuel env cfg login end_cursor (full_names @ edges) s2
              | _ \<Rightarrow> Some (Inl KeyError, s2)))"

definition collect_repo_full_names ::
  "nat \<Rightarrow> env \<Rightarrow> config \<Rightarrow> string \<Rightarrow> state \<Rightarrow> ((exn + string list) \<times> state) option" where
  "collect_repo_full_names fuel env cfg login s = collect_pages fuel env cfg login None [] s"

definition get_repo_commit_total ::
  "env \<Rightarrow> config \<Rightarrow> string \<Rightarrow> string \<Rightarrow> state \<Rightarrow> (exn + int) \<times> state" where
  "get_repo_commit_total env cfg owner repo s =
     (let s1 = count_query ''loc_repo_scan'' s
      in case gql env cfg (CommitTotalQuery owner repo) ''loc_repo_scan'' s1 of
           (Inl e, s2) \<Rightarrow> (Inl e, s2)
         | (Inr data, s2) \<Rightarrow>
             (case data of
                Repository None \<Rightarrow> (Inr 0, s2)
              | Repository (Some (HistoryTotal n)) \<Rightarrow> (Inr n, s2)
              | _ \<Rightarrow> (Inl KeyError, s2)))"

text \<open>The \<open>for edge in history["edges"]\<close> loop of \<open>scan_repo_history\<close> on the accumulators
  \<open>(my_commits, additions, deletions)\<close>.\<close>

fun scan_edges :: "config \<Rightarrow> commit list \<Rightarrow> int \<times> int \<times> int \<Rightarrow> int \<times> int \<times> int" where
  "scan_edges cfg [] acc = acc"
| "scan_edges cfg (node # edges) (my_commits, adds, dels) =
     (if (case author_user node of
            None \<Rightarrow> False
          | Some login \<Rightarrow> py_lower login = py_lower (USER_NAME cfg))
      then scan_edges cfg edges (my_commits + 1, adds + additions node, dels + deletions node)
      else scan_edges cfg edges (my_commits, adds, dels))"

text \<open>The \<open>while True\<close> loop of \<open>scan_repo_history\<close>, bounded like \<open>collect_pages\<close>.\<close>

fun scan_pages ::
  "nat \<Rightarrow> env \<Rightarrow> config \<Rightarrow> string \<Rightarrow> string \<Rightarrow> cursor \<Rightarrow> int \<times> int \<times> int \<Rightarrow> state \<Rightarrow>
     ((exn + int \<times> int \<times> int) \<times> state) option" where
  "scan_pages 0 env cfg owner repo cursor acc s = None"
| "scan_pages (Suc fuel) env cfg owner repo cursor acc s =
     (let s1 = count_query ''loc_repo_scan'' s
      in case gql env cfg (CommitHistoryQuery owner repo cursor) ''loc_repo_scan'' s1 of
           (Inl e, s2) \<Rightarrow> Some (Inl e, s2)
         | (Inr data, s2) \<Rightarrow>
             (case data of
                Repository None \<Rightarrow> Some (Inr acc, s2)
              | Repository (Some (HistoryPage edges has_next end_cursor)) \<Rightarrow>
                  if \<not> has_next then Some (Inr (scan_edges cfg edges acc), s2)
                  else scan_pages fuel env cfg owner repo end_cursor (scan_edges cfg edges acc) s2
              | _ \<Rightarrow> Some (Inl KeyError, s2)))"

definition scan_repo_history ::
  "nat \<Rightarrow> env \<Rightarrow> config \<Rightarrow> string \<Rightarrow> string \<Rightarrow> state \<Rightarrow> ((exn + int \<times> int \<times> int \<times> int) \<times> state) option" where
  "scan_repo_history fuel env cfg owner repo s =
     (case get_repo_commit_total env cfg owner repo s of
        (Inl e, s1) \<Rightarrow> Some (Inl e, s1)
      | (Inr total_commits, s1) \<Rightarrow>
          if total_commits = 0 then Some (Inr (0, 0, 0, 0), s1)
          else
            (case scan_pages fuel env cfg owner repo None (0, 0, 0) s1 of
               None \<Rightarrow> None
             | Some (Inl e, s2) \<Rightarrow> Some (Inl e, s2)
             | Some (Inr (my_commits, adds, dels), s2) \<Rightarrow> Some (Inr (total_commits, my_commits, adds, dels), s2)))"

section \<open>The cache file and the aggregation pass\<close>

definition CACHE_COMMENT_LINES :: nat where
  "CACHE_COMMENT_LINES = 5"

text \<open>\<open>write_cache_header\<close> opens the file for writing, which truncates it, and writes the
  five header lines; the fourth holds the time of the clock.\<close>

definition write_cache_header :: "env \<Rightarrow> config \<Rightarrow> state \<Rightarrow> state" where
  "write_cache_header env cfg s =
     s\<lparr>cache_file :=
          Some [''Cache File for LOC / Commit Stats\<newline>'',
                ''Format: sha256(repo) totalCommits myCommits additions deletions\<newline>'',
                ''User: '' @ USER_NAME cfg @ ''\<newline>'',
                ''Generated: '' @ utcnow_iso env (clock s) @ ''\<newline>'',
                ''---\<newline>''],
        clock := Suc (clock s)\<rparr>"

text \<open>The rebuild of \<open>init_cache_if_needed\<close>, which the function has twice: the header,
  then one line \<open>f"{sha256(full)} 0 0 0 0\n"\<close> per repository, appended.\<close>

definition rebuild_cache :: "env \<Rightarrow> config \<Rightarrow> string list \<Rightarrow> state \<Rightarrow> state" where
  "rebuild_cache env cfg repos_edges s =
     (let s1 = write_cache_header env cfg s
      in s1\<lparr>cache_file :=
              Some ((case cache_file s1 of None \<Rightarrow> [] | Some ls \<Rightarrow> ls) @
                    map (\<lambda>full. sha256_hex env full @ '' 0 0 0 0\<newline>'') repos_edges)\<rparr>)"

definition init_cache_if_needed :: "env \<Rightarrow> config \<Rightarrow> string list \<Rightarrow> state \<Rightarrow> state" where
  "init_cache_if_needed env cfg repos_edges s =
     (if FORCE_CACHE cfg \<or> cache_file s = None then rebuild_cache env cfg repos_edges s
      else
        (case cache_file s of
           None \<Rightarrow> s
         | Some lines \<Rightarrow>
             (let repo_lines = drop CACHE_COMMENT_LINES lines
              in if length repo_lines \<noteq> length repos_edges then rebuild_cache env cfg repos_edges s
                 else s)))"

text \<open>The line \<open>f"{expected_hash} {current_total} {my_commits} {add_loc} {del_loc}\n"\<close>.\<close>

definition entry_line :: "string \<Rightarrow> int \<Rightarrow> int \<Rightarrow> int \<Rightarrow> int \<Rightarrow> string" where
  "entry_line h current_total my_commits add_loc del_loc =
     h @ '' '' @ py_str current_total @ '' '' @ py_str my_commits @ '' '' @ py_str add_loc @
     '' '' @ py_str del_loc @ ''\<newline>''"

text \<open>
  One iteration of the loop \<open>for i, full in enumerate(repos)\<close> of \<open>heavy_stats\<close>. It ends
  with an exception, with a fingerprint mismatch (the code then leaves the loop), or with
  the line appended to \<open>updated_lines\<close> and the three numbers added to the totals.
\<close>

datatype step_result = HashMismatch | Entry string int int int

definition heavy_step ::
  "nat \<Rightarrow> env \<Rightarrow> config \<Rightarrow> string list \<Rightarrow> nat \<Rightarrow> string \<Rightarrow> state \<Rightarrow> ((exn + step_result) \<times> state) option" where
  "heavy_step fuel env cfg repo_lines i full s =
     (if length repo_lines \<le> i then Some (Inl IndexError, s)
      else
        (let fields = py_split (repo_lines ! i)
         in if length fields \<noteq> 5 then Some (Inl ValueError, s)
            else
              (let repo_hash = fields ! 0; prev_total = fields ! 1; prev_my = fields ! 2;
                   prev_add = fields ! 3; prev_del = fields ! 4;
                   expected_hash = sha256_hex env full;
                   parts = py_split_sep CHR ''/'' full
               in if length parts \<noteq> 2 then Some (Inl ValueError, s)
                  else
                    (let owner = parts ! 0; repo = parts ! 1
                     in if repo_hash \<noteq> expected_hash then Some (Inr HashMismatch, s)
                        else
                          (case get_repo_commit_total env cfg owner repo s of
                             (Inl e, s1) \<Rightarrow> Some (Inl e, s1)
                           | (Inr current_total, s1) \<Rightarrow>
                               (case py_int prev_total of
                                  None \<Rightarrow> Some (Inl ValueError, s1)
                                | Some cached_total \<Rightarrow>
                                    if current_total = cached_total then
                                      (case py_int prev_my of
                                         None \<Rightarrow> Some (Inl ValueError, s1)
                                       | Some my_commits \<Rightarrow>
                                           (case py_int prev_add of
                                              None \<Rightarrow> Some (Inl ValueError, s1)
                                            | Some add_loc \<Rightarrow>
                                                (case py_int prev_del of
                                                   None \<Rightarrow> Some (Inl ValueError, s1)
                                                 | Some del_loc \<Rightarrow>
                                                     Some (Inr (Entry (entry_line expected_hash current_total my_commits add_loc del_loc)
                                                                  my_commits add_loc del_loc), s1))))
                                    else
                                      (case scan_repo_history fuel env cfg owner repo s1 of
                                         None \<Rightarrow> None
                                       | Some (Inl e, s2) \<Rightarrow> Some (Inl e, s2)
                                       | Some (Inr (t, my_commits, add_loc, del_loc), s2) \<Rightarrow>
                                           Some (Inr (Entry (entry_line expected_hash current_total my_commits add_loc del_loc)
                                                        my_commits add_loc del_loc), s2))))))))"

text \<open>The loop from index \<open>i\<close> on, with \<open>updated_lines\<close> and the three totals.\<close>

datatype loop_result = Restart | Completed "string list" int int int

fun heavy_loop ::
  "nat \<Rightarrow> env \<Rightarrow> config \<Rightarrow> string list \<Rightarrow> nat \<Rightarrow> string list \<Rightarrow> string list \<times> int \<times> int \<times> int \<Rightarrow> state \<Rightarrow>
     ((exn + loop_result) \<times> state) option" where
  "heavy_loop fuel env cfg repo_lines i [] (updated_lines, total_my_commits, total_add, total_del) s =
     Some (Inr (Completed updated_lines total_my_commits total_add total_del), s)"
| "heavy_loop fuel env cfg repo_lines i (full # rest) (updated_lines, total_my_commits, total_add, total_del) s =
     (case heavy_step fuel env cfg repo_lines i full s of
        None \<Rightarrow> None
      | Some (Inl e, s1) \<Rightarrow> Some (Inl e, s1)
      | Some (Inr HashMismatch, s1) \<Rightarrow> Some (Inr Restart, s1)
      | Some (Inr (Entry line my_commits add_loc del_loc), s1) \<Rightarrow>
          heavy_loop fuel env cfg repo_lines (Suc i) rest
            (updated_lines @ [line], total_my_commits + my_commits, total_add + add_loc, total_del + del_loc) s1)"

text \<open>
  \<open>heavy_stats\<close>, with the value of \<open>RECURSION_GUARD\<close> as argument and as second component
  of the result. The result is \<open>(my_commits, loc_add, loc_del, loc_net)\<close>.
\<close>

function heavy_stats ::
  "nat \<Rightarrow> env \<Rightarrow> config \<Rightarrow> string \<Rightarrow> int \<Rightarrow> state \<Rightarrow> ((exn + int \<times> int \<times> int \<times> int) \<times> int \<times> state) option" where
  "heavy_stats fuel env cfg login guard s =
     (case collect_repo_full_names fuel env cfg login s of
        None \<Rightarrow> None
      | Some (Inl e, s1) \<Rightarrow> Some (Inl e, guard, s1)
      | Some (Inr repos, s1) \<Rightarrow>
          (let s2 = init_cache_if_needed env cfg repos s1
           in case cache_file s2 of
                None \<Rightarrow> Some (Inl FileNotFoundError, guard, s2)
              | Some lines0 \<Rightarrow>
                  (let s3 = (if length (drop CACHE_COMMENT_LINES lines0) \<noteq> length repos
                             then init_cache_if_needed env cfg repos s2 else s2)
                   in case cache_file s3 of
                        None \<Rightarrow> Some (Inl FileNotFoundError, guard, s3)
                      | Some lines \<Rightarrow>
                          (case heavy_loop fuel env cfg (drop CACHE_COMMENT_LINES lines) 0 repos ([], 0, 0, 0) s3 of
                             None \<Rightarrow> None
                           | Some (Inl e, s4) \<Rightarrow> Some (Inl e, guard, s4)
                           | Some (Inr Restart, s4) \<Rightarrow>
                               if 1 < guard then Some (Inl GuardTriggered, guard, s4)
                               else heavy_stats fuel env cfg login (guard + 1) (init_cache_if_needed env cfg repos s4)
                           | Some (Inr (Completed updated_lines total_my_commits total_add total_del), s4) \<Rightarrow>
                               Some (Inr (total_my_commits, total_add, total_del, total_add - total_del), guard,
                                     s4\<lparr>cache_file := Some (take CACHE_COMMENT_LINES lines @ updated_lines)\<rparr>)))))"
  by pat_completeness auto
termination
  by (relation "measure (\<lambda>(fuel, env, cfg, login, guard, s). nat (2 - guard))") auto

declare heavy_stats.simps [simp del]

section \<open>Vocabulary of the specification for the query client\<close>

text \<open>The data of a response that \<open>gql\<close> hands back: status 200 and no GraphQL errors.\<close>

definition success :: "outcome \<Rightarrow> payload option" where
  "success out =
     (case out of
        Raises e \<Rightarrow> None
      | Response status_code b \<Rightarrow>
          (case b of
             NotJson \<Rightarrow> None
           | Json errors data \<Rightarrow> if status_code = 200 \<and> errors = [] then Some data else None))"






section \<open>Vocabulary of the specification for the aggregator\<close>

text \<open>The commits on the history pages received: the edges of every successful answer to a
  history query among the given exchanges, in order.\<close>

definition payload_commits :: "request \<Rightarrow> payload \<Rightarrow> commit list" where
  "payload_commits req d =
     (case req of
        CommitHistoryQuery owner repo cursor \<Rightarrow>
          (case d of Repository (Some (HistoryPage edges has_next end_cursor)) \<Rightarrow> edges | _ \<Rightarrow> [])
      | _ \<Rightarrow> [])"

definition page_commits :: "request \<times> outcome \<Rightarrow> commit list" where
  "page_commits x = (case success (snd x) of None \<Rightarrow> [] | Some d \<Rightarrow> payload_commits (fst x) d)"

definition received :: "(request \<times> outcome) list \<Rightarrow> commit list" where
  "received xs = concat (map page_commits xs)"

text \<open>A commit is attributed to the tracked account when its author has an account and the
  login of that account equals the tracked login up to case.\<close>

definition attributed :: "config \<Rightarrow> commit \<Rightarrow> bool" where
  "attributed cfg c =
     (case author_user c of None \<Rightarrow> False | Some login \<Rightarrow> py_lower login = py_lower (USER_NAME cfg))"

definition is_history_query :: "request \<times> outcome \<Rightarrow> bool" where
  "is_history_query x = (case fst x of CommitHistoryQuery owner repo cursor \<Rightarrow> True | _ \<Rightarrow> False)"

text \<open>The state after a commit-count probe for \<open>owner/repo\<close> whose first attempt is answered
  with a null default branch: the counter is incremented and the one exchange is logged.\<close>

definition probed_absent :: "string \<Rightarrow> string \<Rightarrow> state \<Rightarrow> state" where
  "probed_absent owner repo s =
     (count_query ''loc_repo_scan'' s)
       \<lparr>exchanges := exchanges s @ [(CommitTotalQuery owner repo, Response 200 (Json [] (Repository None)))]\<rparr>"

section \<open>Concrete scenarios\<close>

text \<open>A process that has just started: no cache file, all counters zero, nothing posted.\<close>

definition fresh_state :: state where
  "fresh_state = \<lparr>cache_file = None, QUERY_COUNT = (\<lambda>name. 0), exchanges = [], slept = [], clock = 0\<rparr>"





text \<open>A stand-in for SHA-256 in the scenarios: never empty and free of whitespace, as a
  hexadecimal digest is.\<close>

definition toy_hex :: "string \<Rightarrow> string" where
  "toy_hex s = CHR ''h'' # map (\<lambda>c. if is_space c then CHR ''_'' else c) s"

text \<open>An account with the single repository \<open>o/r\<close>, which has no default branch.\<close>

definition one_empty_repo_env :: env where
  "one_empty_repo_env =
     \<lparr>remote = (\<lambda>h req. case req of
                   ListReposQuery login cursor \<Rightarrow> Response 200 (Json [] (Repositories [''o/r''] False None))
                 | _ \<Rightarrow> Response 200 (Json [] (Repository None))),
      sha256_hex = toy_hex, utcnow_iso = (\<lambda>n. ''2024-01-01T00:00:00'')\<rparr>"

text \<open>A cache file with one entry whose fingerprint is not the one of \<open>o/r\<close>.\<close>

definition stale_cache :: "string list" where
  "stale_cache =
     [''Cache File for LOC / Commit Stats\<newline>'',
      ''Format: sha256(repo) totalCommits myCommits additions deletions\<newline>'',
      ''User: u\<newline>'',
      ''Generated: 2023-12-31T00:00:00\<newline>'',
      ''---\<newline>'',
      ''hother/repo 0 0 0 0\<newline>'']"

text \<open>An account \<open>Himu\<close> with the repository \<open>o/r\<close> of three commits: one by \<open>himu\<close>
  (+10/-2), one by another account, one whose author has no account.\<close>

definition three_commits :: "commit list" where
  "three_commits =
     [\<lparr>author_user = Some ''himu'', additions = 10, deletions = 2\<rparr>,
      \<lparr>author_user = Some ''other'', additions = 7, deletions = 7\<rparr>,
      \<lparr>author_user = None, additions = 5, deletions = 1\<rparr>]"

definition three_commits_env :: env where
  "three_commits_env =
     \<lparr>remote = (\<lambda>h req. case req of
                   ListReposQuery login cursor \<Rightarrow> Response 200 (Json [] (Repositories [''o/r''] False None))
                 | CommitTotalQuery owner repo \<Rightarrow> Response 200 (Json [] (Repository (Some (HistoryTotal 3))))
                 | CommitHistoryQuery owner repo cursor \<Rightarrow>
                     Response 200 (Json [] (Repository (Some (HistoryPage three_commits False None))))),
      sha256_hex = toy_hex, utcnow_iso = (\<lambda>n. ''2024-01-01T00:00:00'')\<rparr>"

text \<open>The five header lines of a cache file written on 2023-12-31 for the account \<open>u\<close>.\<close>

definition old_header :: "string list" where
  "old_header =
     [''Cache File for LOC / Commit Stats\<newline>'',
      ''Format: sha256(repo) totalCommits myCommits additions deletions\<newline>'',
      ''User: u\<newline>'',
      ''Generated: 2023-12-31T00:00:00\<newline>'',
      ''---\<newline>'']"

section \<open>Properties of the string primitives\<close>














section \<open>Properties of the remote query client\<close>

lemma gql_loop_frame:
  "QUERY_COUNT (snd (gql_loop env cfg req tag a le s)) = QUERY_COUNT s \<and>
   cache_file (snd (gql_loop env cfg req tag a le s)) = cache_file s \<and>
   clock (snd (gql_loop env cfg req tag a le s)) = clock s"
proof (induction env cfg req tag a le s rule: gql_loop.induct)
  case (1 env cfg req tag attempt last_exc s)
  note IH = 1 [OF _ refl refl, simplified]
  show ?case
  proof (cases "MAX_RETRIES cfg < attempt")
    case True
    then show ?thesis
      by (subst (1 2 3) gql_loop.simps) (simp split: option.splits)
  next
    case False
    show ?thesis
    proof (cases "gql_attempt cfg tag attempt (remote env (exchanges s) req)")
      case (Return d)
      with False show ?thesis by (subst (1 2 3) gql_loop.simps) (simp add: Let_def)
    next
      case (Raise e)
      with False show ?thesis by (subst (1 2 3) gql_loop.simps) (simp add: Let_def)
    next
      case (Retry e)
      with False IH [OF False Retry] show ?thesis
        by (subst (1 2 3) gql_loop.simps) (simp add: Let_def)
    qed
  qed
qed

lemma gql_frame:
  "QUERY_COUNT (snd (gql env cfg req tag s)) = QUERY_COUNT s"
  "cache_file (snd (gql env cfg req tag s)) = cache_file s"
  "clock (snd (gql env cfg req tag s)) = clock s"
  by (simp_all add: gql_def gql_loop_frame)

lemma get_repo_commit_total_state:
  "snd (get_repo_commit_total env cfg owner repo s) =
     snd (gql env cfg (CommitTotalQuery owner repo) ''loc_repo_scan'' (count_query ''loc_repo_scan'' s))"
  by (simp add: get_repo_commit_total_def Let_def
      split: prod.splits sum.splits payload.splits option.splits history.splits)





















section \<open>Properties of the aggregation pass\<close>

lemma list_repos_one:
  "collect_repo_full_names (Suc 0) one_empty_repo_env (default_config ''u'') ''u'' s =
     Some (Inr [''o/r''],
       s\<lparr>QUERY_COUNT := (QUERY_COUNT s)(''loc_list_repos'' := QUERY_COUNT s ''loc_list_repos'' + 1),
         exchanges := exchanges s @
           [(ListReposQuery ''u'' None, Response 200 (Json [] (Repositories [''o/r''] False None)))]\<rparr>)"
  by (simp add: collect_repo_full_names_def gql_def gql_loop.simps gql_attempt_def count_query_def
      one_empty_repo_env_def default_config_def Let_def)

lemma stale_step:
  "cache_file s = Some stale_cache \<Longrightarrow>
   heavy_loop (Suc 0) one_empty_repo_env (default_config ''u'') (drop CACHE_COMMENT_LINES stale_cache) 0 [''o/r'']
      ([], 0, 0, 0) s = Some (Inr Restart, s)"
  by (simp add: heavy_step_def stale_cache_def CACHE_COMMENT_LINES_def py_split_def py_split_sep_def
      is_space_def one_empty_repo_env_def toy_hex_def Let_def)

lemma stale_init:
  "cache_file s = Some stale_cache \<Longrightarrow>
   init_cache_if_needed one_empty_repo_env (default_config ''u'') [''o/r''] s = s"
  by (simp add: init_cache_if_needed_def default_config_def stale_cache_def CACHE_COMMENT_LINES_def)

lemma stale_pass:
  assumes "cache_file s = Some stale_cache"
  shows "heavy_stats (Suc 0) one_empty_repo_env (default_config ''u'') ''u'' guard s =
     (let s1 = s\<lparr>QUERY_COUNT := (QUERY_COUNT s)(''loc_list_repos'' := QUERY_COUNT s ''loc_list_repos'' + 1),
                 exchanges := exchanges s @
                   [(ListReposQuery ''u'' None, Response 200 (Json [] (Repositories [''o/r''] False None)))]\<rparr>
      in if 1 < guard then Some (Inl GuardTriggered, guard, s1)
         else heavy_stats (Suc 0) one_empty_repo_env (default_config ''u'') ''u'' (guard + 1) s1)"
proof -
  let ?s1 = "s\<lparr>QUERY_COUNT := (QUERY_COUNT s)(''loc_list_repos'' := QUERY_COUNT s ''loc_list_repos'' + 1),
                 exchanges := exchanges s @
                   [(ListReposQuery ''u'' None, Response 200 (Json [] (Repositories [''o/r''] False None)))]\<rparr>"
  have c: "cache_file ?s1 = Some stale_cache" using assms by simp
  have len: "length (drop CACHE_COMMENT_LINES stale_cache) = length [''o/r'']"
    by (simp add: stale_cache_def CACHE_COMMENT_LINES_def)
  show ?thesis
    by (subst heavy_stats.simps)
       (simp only: list_repos_one stale_init [OF c] stale_step [OF c] c len Let_def
          option.case prod.case sum.case loop_result.case if_False simp_thms)
qed

text \<open>
  C1, evaluated on the code. The cache file exists and holds one entry, the listing holds
  the one repository \<open>o/r\<close>, and the entry's fingerprint is not the one of \<open>o/r\<close>;
  \<open>FORCE_CACHE\<close> is off and \<open>RECURSION_GUARD\<close> is 0. The call of \<open>init_cache_if_needed\<close>
  before the restart rebuilds nothing, because the file exists and has the right number of
  entries; the pass restarts twice (the guard goes to 2) and the third mismatch raises. The
  listing has been fetched three times and the cache file is what it was.
\<close>

theorem fingerprint_mismatch_restarts_twice_without_rebuild:
  "heavy_stats (Suc 0) one_empty_repo_env (default_config ''u'') ''u'' 0
     (fresh_state\<lparr>cache_file := Some stale_cache\<rparr>) =
   Some (Inl GuardTriggered, 2,
     fresh_state\<lparr>cache_file := Some stale_cache,
       QUERY_COUNT := (\<lambda>name. 0)(''loc_list_repos'' := 3),
       exchanges := replicate 3 (ListReposQuery ''u'' None, Response 200 (Json [] (Repositories [''o/r''] False None)))\<rparr>)"
proof -
  have r: "replicate 3 x = [x, x, x]" for x :: "request \<times> outcome"
    by (simp add: numeral_3_eq_3)
  show ?thesis
    by (simp add: stale_pass fresh_state_def Let_def r)
qed

section \<open>Requests posted and commits received\<close>

lemma attempt_classify:
  "gql_attempt cfg tag a out = Return d \<Longrightarrow> success out = Some d"
  "gql_attempt cfg tag a out = Raise e \<Longrightarrow> success out = None"
  "gql_attempt cfg tag a out = Retry x \<Longrightarrow> success out = None"
  by (auto simp: success_def gql_attempt_def handle_exception_def Let_def
      split: outcome.splits body.splits if_splits)

lemma received_append: "received (xs @ ys) = received xs @ received ys"
  by (simp add: received_def)

lemma received_single: "received [(req, out)] = (case success out of None \<Rightarrow> [] | Some d \<Rightarrow> payload_commits req d)"
  by (simp add: received_def page_commits_def split: option.splits)

lemma gql_loop_log:
  "\<exists>outs. exchanges (snd (gql_loop env cfg req tag a le s)) = exchanges s @ map (Pair req) outs \<and>
     received (map (Pair req) outs) =
       (case fst (gql_loop env cfg req tag a le s) of Inl e \<Rightarrow> [] | Inr d \<Rightarrow> payload_commits req d)"
proof (induction env cfg req tag a le s rule: gql_loop.induct)
  case (1 env cfg req tag attempt last_exc s)
  note IH = 1 [OF _ refl refl, simplified]
  show ?case
  proof (cases "MAX_RETRIES cfg < attempt")
    case True
    have "gql_loop env cfg req tag attempt last_exc s =
        (case last_exc of Some e \<Rightarrow> (Inl e, s) | None \<Rightarrow> (Inl (FailedWithoutException tag), s))"
      by (subst gql_loop.simps) (use True in simp)
    then show ?thesis
      by (intro exI [of _ "[]"]) (simp add: received_def split: option.splits)
  next
    case False
    let ?out = "remote env (exchanges s) req"
    show ?thesis
    proof (cases "gql_attempt cfg tag attempt ?out")
      case (Return d)
      have "gql_loop env cfg req tag attempt last_exc s = (Inr d, s\<lparr>exchanges := exchanges s @ [(req, ?out)]\<rparr>)"
        by (subst gql_loop.simps) (use False Return in \<open>simp add: Let_def\<close>)
      then show ?thesis
        using attempt_classify(1) [OF Return]
        by (intro exI [of _ "[?out]"]) (simp add: received_single)
    next
      case (Raise e)
      have "gql_loop env cfg req tag attempt last_exc s = (Inl e, s\<lparr>exchanges := exchanges s @ [(req, ?out)]\<rparr>)"
        by (subst gql_loop.simps) (use False Raise in \<open>simp add: Let_def\<close>)
      then show ?thesis
        using attempt_classify(2) [OF Raise]
        by (intro exI [of _ "[?out]"]) (simp add: received_single)
    next
      case (Retry x)
      let ?s1 = "s\<lparr>exchanges := exchanges s @ [(req, ?out)], slept := slept s @ [RETRY_BACKOFF cfg ^ nat attempt]\<rparr>"
      let ?le = "case x of None \<Rightarrow> last_exc | Some y \<Rightarrow> Some y"
      have eq: "gql_loop env cfg req tag attempt last_exc s = gql_loop env cfg req tag (attempt + 1) ?le ?s1"
        by (subst gql_loop.simps) (use False Retry in \<open>simp add: Let_def\<close>)
      from IH [OF False Retry] obtain outs where
        outs: "exchanges (snd (gql_loop env cfg req tag (attempt + 1) ?le ?s1)) =
                 exchanges s @ (req, ?out) # map (Pair req) outs"
          "received (map (Pair req) outs) =
             (case fst (gql_loop env cfg req tag (attempt + 1) ?le ?s1) of Inl e \<Rightarrow> [] | Inr d \<Rightarrow> payload_commits req d)"
        by auto
      have "received (map (Pair req) (?out # outs)) = received (map (Pair req) outs)"
        using attempt_classify(3) [OF Retry] received_append [of "[(req, ?out)]" "map (Pair req) outs"]
        by (simp add: received_single)
      then show ?thesis
        unfolding eq using outs by (intro exI [of _ "?out # outs"]) simp
    qed
  qed
qed

lemma gql_log:
  "\<exists>outs. exchanges (snd (gql env cfg req tag s)) = exchanges s @ map (Pair req) outs \<and>
     received (map (Pair req) outs) =
       (case fst (gql env cfg req tag s) of Inl e \<Rightarrow> [] | Inr d \<Rightarrow> payload_commits req d)"
  unfolding gql_def by (rule gql_loop_log)

lemma scan_edges_sum:
  "scan_edges cfg edges (m, a, d) =
     (m + int (length (filter (attributed cfg) edges)),
      a + sum_list (map additions (filter (attributed cfg) edges)),
      d + sum_list (map deletions (filter (attributed cfg) edges)))"
  by (induction edges arbitrary: m a d) (simp_all add: attributed_def)

lemma scan_edges_append: "scan_edges cfg (xs @ ys) acc = scan_edges cfg ys (scan_edges cfg xs acc)"
  by (cases acc) (simp add: scan_edges_sum)

lemma scan_pages_received:
  "scan_pages fuel env cfg owner repo cursor acc s = Some (Inr acc', s') \<Longrightarrow>
   \<exists>new. exchanges s' = exchanges s @ new \<and> acc' = scan_edges cfg (received new) acc"
proof (induction fuel arbitrary: cursor acc s)
  case 0
  then show ?case by simp
next
  case (Suc fuel)
  let ?req = "CommitHistoryQuery owner repo cursor"
  let ?g = "gql env cfg ?req ''loc_repo_scan'' (count_query ''loc_repo_scan'' s)"
  obtain r s2 where g: "?g = (r, s2)" by (cases ?g)
  from gql_log [of env cfg ?req "''loc_repo_scan''" "count_query ''loc_repo_scan'' s"] g
  obtain outs where outs: "exchanges s2 = exchanges s @ map (Pair ?req) outs"
    "received (map (Pair ?req) outs) = (case r of Inl e \<Rightarrow> [] | Inr d \<Rightarrow> payload_commits ?req d)"
    by (auto simp: count_query_def)
  from Suc.prems g obtain d where r: "r = Inr d"
    by (cases r) (simp_all add: Let_def)
  show ?case
  proof (cases d)
    case (Repositories x1 x2 x3)
    with Suc.prems g r show ?thesis by (simp add: Let_def)
  next
    case Malformed
    with Suc.prems g r show ?thesis by (simp add: Let_def)
  next
    case (Repository ref)
    show ?thesis
    proof (cases ref)
      case None
      with Suc.prems g r Repository have "acc' = acc" "s' = s2" by (simp_all add: Let_def)
      with outs r Repository None show ?thesis
        by (intro exI [of _ "map (Pair ?req) outs"]) (simp add: payload_commits_def)
    next
      case (Some hist)
      show ?thesis
      proof (cases hist)
        case (HistoryTotal n)
        with Suc.prems g r Repository Some show ?thesis by (simp add: Let_def)
      next
        case (HistoryPage edges has_next end_cursor)
        have rec: "received (map (Pair ?req) outs) = edges"
          using outs(2) r Repository Some HistoryPage by (simp add: payload_commits_def)
        show ?thesis
        proof (cases has_next)
          case False
          with Suc.prems g r Repository Some HistoryPage
          have "acc' = scan_edges cfg edges acc" "s' = s2" by (simp_all add: Let_def)
          with outs(1) rec show ?thesis
            by (intro exI [of _ "map (Pair ?req) outs"]) simp
        next
          case True
          with Suc.prems g r Repository Some HistoryPage
          have "scan_pages fuel env cfg owner repo end_cursor (scan_edges cfg edges acc) s2 = Some (Inr acc', s')"
            by (simp add: Let_def)
          from Suc.IH [OF this] obtain new where
            new: "exchanges s' = exchanges s2 @ new" "acc' = scan_edges cfg (received new) (scan_edges cfg edges acc)"
            by blast
          show ?thesis
            using new outs(1) rec
            by (intro exI [of _ "map (Pair ?req) outs @ new"])
               (simp add: received_append scan_edges_append)
        qed
      qed
    qed
  qed
qed

lemma probe_log:
  "\<exists>outs. exchanges (snd (get_repo_commit_total env cfg owner repo s)) =
      exchanges s @ map (Pair (CommitTotalQuery owner repo)) outs"
  using gql_log [of env cfg "CommitTotalQuery owner repo" "''loc_repo_scan''" "count_query ''loc_repo_scan'' s"]
  by (auto simp: get_repo_commit_total_state count_query_def)

lemma received_probe: "received (map (Pair (CommitTotalQuery owner repo)) outs) = []"
  by (induction outs) (simp_all add: received_def page_commits_def payload_commits_def split: option.splits)

text \<open>
  C8. The loop over the edges of a history page adds one to \<open>my_commits\<close> and the
  commit's additions and deletions to the other two accumulators exactly for the commits
  attributed to the tracked account (author account present, login equal up to case); a
  commit without author account changes nothing and raises nothing. A rescan that returns
  therefore yields, as \<open>my_commits\<close>, \<open>additions\<close> and \<open>deletions\<close>, the number and the sums
  over the attributed commits of all history pages it received.
\<close>

theorem author_attribution:
  "scan_edges cfg edges (m, a, d) =
     (m + int (length (filter (attributed cfg) edges)),
      a + sum_list (map additions (filter (attributed cfg) edges)),
      d + sum_list (map deletions (filter (attributed cfg) edges))) \<and>
   (scan_repo_history fuel env cfg owner repo s = Some (Inr (t, my_commits, adds, dels), s') \<longrightarrow>
      (\<exists>new. exchanges s' = exchanges s @ new \<and>
         my_commits = int (length (filter (attributed cfg) (received new))) \<and>
         adds = sum_list (map additions (filter (attributed cfg) (received new))) \<and>
         dels = sum_list (map deletions (filter (attributed cfg) (received new)))))"
proof (intro conjI impI)
  show "scan_edges cfg edges (m, a, d) =
     (m + int (length (filter (attributed cfg) edges)),
      a + sum_list (map additions (filter (attributed cfg) edges)),
      d + sum_list (map deletions (filter (attributed cfg) edges)))"
    by (rule scan_edges_sum)
next
  assume run: "scan_repo_history fuel env cfg owner repo s = Some (Inr (t, my_commits, adds, dels), s')"
  let ?p = "get_repo_commit_total env cfg owner repo s"
  obtain r s1 where p: "?p = (r, s1)" by (cases ?p)
  from probe_log [of env cfg owner repo s] p obtain outs where
    outs: "exchanges s1 = exchanges s @ map (Pair (CommitTotalQuery owner repo)) outs" by auto
  from run p obtain total_commits where r: "r = Inr total_commits"
    by (cases r) (simp_all add: scan_repo_history_def)
  show "\<exists>new. exchanges s' = exchanges s @ new \<and>
         my_commits = int (length (filter (attributed cfg) (received new))) \<and>
         adds = sum_list (map additions (filter (attributed cfg) (received new))) \<and>
         dels = sum_list (map deletions (filter (attributed cfg) (received new)))"
  proof (cases "total_commits = 0")
    case True
    with run p r have "s' = s1" "my_commits = 0" "adds = 0" "dels = 0"
      by (simp_all add: scan_repo_history_def)
    with outs show ?thesis
      by (intro exI [of _ "map (Pair (CommitTotalQuery owner repo)) outs"]) (simp add: received_probe)
  next
    case False
    with run p r have "scan_pages fuel env cfg owner repo None (0, 0, 0) s1 = Some (Inr (my_commits, adds, dels), s')"
      by (auto simp: scan_repo_history_def split: option.splits prod.splits sum.splits)
    from scan_pages_received [OF this] obtain new where
      new: "exchanges s' = exchanges s1 @ new" "(my_commits, adds, dels) = scan_edges cfg (received new) (0, 0, 0)"
      by blast
    show ?thesis
      using new outs
      by (intro exI [of _ "map (Pair (CommitTotalQuery owner repo)) outs @ new"])
         (simp add: received_append received_probe scan_edges_sum)
  qed
qed

lemma three_commits_scan:
  "scan_repo_history (Suc 0) three_commits_env (default_config ''Himu'') ''o'' ''r'' fresh_state =
     Some (Inr (3, 1, 10, 2),
       fresh_state\<lparr>QUERY_COUNT := (\<lambda>name. 0)(''loc_repo_scan'' := 2),
         exchanges :=
           [(CommitTotalQuery ''o'' ''r'', Response 200 (Json [] (Repository (Some (HistoryTotal 3))))),
            (CommitHistoryQuery ''o'' ''r'' None,
             Response 200 (Json [] (Repository (Some (HistoryPage three_commits False None)))))]\<rparr>)"
proof -
  have l: "py_lower ''Himu'' = ''himu''" "py_lower ''himu'' = ''himu''" "py_lower ''other'' = ''other''"
    by code_simp+
  show ?thesis
    by (simp add: scan_repo_history_def get_repo_commit_total_def gql_def gql_loop.simps gql_attempt_def
        count_query_def three_commits_env_def fresh_state_def default_config_def Let_def
        three_commits_def l)
qed

theorem author_attribution_witness:
  "scan_repo_history (Suc 0) three_commits_env (default_config ''Himu'') ''o'' ''r'' fresh_state =
     Some (Inr (3, 1, 10, 2),
       fresh_state\<lparr>QUERY_COUNT := (\<lambda>name. 0)(''loc_repo_scan'' := 2),
         exchanges :=
           [(CommitTotalQuery ''o'' ''r'', Response 200 (Json [] (Repository (Some (HistoryTotal 3))))),
            (CommitHistoryQuery ''o'' ''r'' None,
             Response 200 (Json [] (Repository (Some (HistoryPage three_commits False None)))))]\<rparr>) \<and>
   (\<exists>new. new = [(CommitTotalQuery ''o'' ''r'', Response 200 (Json [] (Repository (Some (HistoryTotal 3))))),
            (CommitHistoryQuery ''o'' ''r'' None,
             Response 200 (Json [] (Repository (Some (HistoryPage three_commits False None)))))] \<and>
      (1::int) = int (length (filter (attributed (default_config ''Himu'')) (received new))) \<and>
      (10::int) = sum_list (map additions (filter (attributed (default_config ''Himu'')) (received new))) \<and>
      (2::int) = sum_list (map deletions (filter (attributed (default_config ''Himu'')) (received new))))"
proof -
  let ?new = "[(CommitTotalQuery ''o'' ''r'', Response 200 (Json [] (Repository (Some (HistoryTotal 3))))),
            (CommitHistoryQuery ''o'' ''r'' None,
             Response 200 (Json [] (Repository (Some (HistoryPage three_commits False None)))))]"
  let ?S = "fresh_state\<lparr>QUERY_COUNT := (\<lambda>name. 0)(''loc_repo_scan'' := 2), exchanges := ?new\<rparr>"
  have run: "scan_repo_history (Suc 0) three_commits_env (default_config ''Himu'') ''o'' ''r'' fresh_state =
      Some (Inr (3, 1, 10, 2), ?S)"
    by (rule three_commits_scan)
  from author_attribution [of "default_config ''Himu''" "[]" 0 0 0 "Suc 0" three_commits_env "''o''" "''r''"
      fresh_state 3 1 10 2 ?S] run
  obtain new where n: "exchanges ?S = exchanges fresh_state @ new"
    "(1::int) = int (length (filter (attributed (default_config ''Himu'')) (received new)))"
    "(10::int) = sum_list (map additions (filter (attributed (default_config ''Himu'')) (received new)))"
    "(2::int) = sum_list (map deletions (filter (attributed (default_config ''Himu'')) (received new)))"
    by blast
  from n(1) have "new = ?new" by (simp add: fresh_state_def)
  with n(2-4) run show ?thesis by blast
qed

section \<open>One repository of the aggregation pass\<close>

lemma split_ws_words:
  "w \<in> set (split_ws acc s) \<Longrightarrow> (\<And>c. c \<in> set acc \<Longrightarrow> \<not> is_space c) \<Longrightarrow>
   w \<noteq> [] \<and> (\<forall>c \<in> set w. \<not> is_space c)"
proof (induction s arbitrary: acc)
  case Nil
  then show ?case by (auto split: if_splits)
next
  case (Cons c cs)
  show ?case
  proof (cases "is_space c")
    case True
    with Cons.prems(1) have "w = rev acc \<and> acc \<noteq> [] \<or> w \<in> set (split_ws [] cs)"
      by (auto split: if_splits)
    then show ?thesis
      using Cons.IH [of "[]"] Cons.prems(2) by auto
  next
    case False
    with Cons.prems(1) have "w \<in> set (split_ws (c # acc) cs)" by simp
    then show ?thesis
      using Cons.IH [of "c # acc"] Cons.prems(2) False by auto
  qed
qed

lemma py_split_words: "w \<in> set (py_split s) \<Longrightarrow> w \<noteq> [] \<and> (\<forall>c \<in> set w. \<not> is_space c)"
  unfolding py_split_def using split_ws_words [of w "[]" s] by simp


lemma heavy_step_entry:
  assumes "i < length repo_lines"
    and "py_split (repo_lines ! i) = [sha256_hex env full, prev_total, prev_my, prev_add, prev_del]"
    and "py_split_sep CHR ''/'' full = [owner, repo]"
    and "py_int prev_total = Some t"
  shows "heavy_step fuel env cfg repo_lines i full s =
    (case get_repo_commit_total env cfg owner repo s of
       (Inl e, s1) \<Rightarrow> Some (Inl e, s1)
     | (Inr current_total, s1) \<Rightarrow>
         if current_total = t then
           (case py_int prev_my of
              None \<Rightarrow> Some (Inl ValueError, s1)
            | Some my_commits \<Rightarrow>
                (case py_int prev_add of
                   None \<Rightarrow> Some (Inl ValueError, s1)
                 | Some add_loc \<Rightarrow>
                     (case py_int prev_del of
                        None \<Rightarrow> Some (Inl ValueError, s1)
                      | Some del_loc \<Rightarrow>
                          Some (Inr (Entry (entry_line (sha256_hex env full) current_total my_commits add_loc del_loc)
                                       my_commits add_loc del_loc), s1))))
         else
           (case scan_repo_history fuel env cfg owner repo s1 of
              None \<Rightarrow> None
            | Some (Inl e, s2) \<Rightarrow> Some (Inl e, s2)
            | Some (Inr (t', my_commits, add_loc, del_loc), s2) \<Rightarrow>
                Some (Inr (Entry (entry_line (sha256_hex env full) current_total my_commits add_loc del_loc)
                             my_commits add_loc del_loc), s2)))"
  using assms by (simp add: heavy_step_def Let_def split: prod.splits sum.splits)


lemma int_literals:
  "py_int ''0'' = Some 0" "py_int ''1'' = Some 1" "py_int ''2'' = Some 2" "py_int ''3'' = Some 3"
  "py_int ''5'' = Some 5" "py_int ''10'' = Some 10"
  by code_simp+

lemma str_literals:
  "py_str 0 = ''0''" "py_str 1 = ''1''" "py_str 2 = ''2''" "py_str 3 = ''3''" "py_str 10 = ''10''"
  by code_simp+



lemma probe_absent:
  assumes "\<And>h. remote env h (CommitTotalQuery owner repo) = Response 200 (Json [] (Repository None))"
    and "1 \<le> MAX_RETRIES cfg"
  shows "get_repo_commit_total env cfg owner repo s = (Inr 0, probed_absent owner repo s)"
  using assms
  by (simp add: get_repo_commit_total_def gql_def gql_loop.simps [of _ _ _ _ 1] gql_attempt_def
      probed_absent_def count_query_def Let_def)

lemma scan_absent:
  assumes "\<And>h. remote env h (CommitTotalQuery owner repo) = Response 200 (Json [] (Repository None))"
    and "1 \<le> MAX_RETRIES cfg"
  shows "scan_repo_history fuel env cfg owner repo s = Some (Inr (0, 0, 0, 0), probed_absent owner repo s)"
  by (simp add: scan_repo_history_def probe_absent [OF assms])

text \<open>
  C9, as the code has it. When the remote answers every commit-count probe for a repository
  with a null default branch, the probe returns 0 and \<open>scan_repo_history\<close> returns
  \<open>(0, 0, 0, 0)\<close> after that one request, for any bound on history pages. In the
  aggregation pass the total 0 is compared with the cached total first. If the cached
  total is not 0, the repository is rescanned: a second probe, no history page, zeros
  added to the sums and a zero entry written. If the cached total is 0, the cached
  \<open>(myCommits, additions, deletions)\<close> are reused as they are, whatever they are (zeros in
  an entry made by a rebuild).
\<close>

theorem empty_branch_yields_zero_or_cached:
  assumes "\<And>h. remote env h (CommitTotalQuery owner repo) = Response 200 (Json [] (Repository None))"
    and "1 \<le> MAX_RETRIES cfg"
  shows "get_repo_commit_total env cfg owner repo s = (Inr 0, probed_absent owner repo s) \<and>
    scan_repo_history fuel env cfg owner repo s = Some (Inr (0, 0, 0, 0), probed_absent owner repo s) \<and>
    (i < length repo_lines \<and>
     py_split (repo_lines ! i) = [sha256_hex env full, prev_total, prev_my, prev_add, prev_del] \<and>
     py_split_sep CHR ''/'' full = [owner, repo] \<and>
     py_int prev_total = Some t \<and> py_int prev_my = Some m \<and> py_int prev_add = Some a \<and> py_int prev_del = Some d \<longrightarrow>
     heavy_step fuel env cfg repo_lines i full s =
       (if t = 0
        then Some (Inr (Entry (entry_line (sha256_hex env full) 0 m a d) m a d), probed_absent owner repo s)
        else Some (Inr (Entry (entry_line (sha256_hex env full) 0 0 0 0) 0 0 0),
                   probed_absent owner repo (probed_absent owner repo s))))"
proof (intro conjI impI)
  show "get_repo_commit_total env cfg owner repo s = (Inr 0, probed_absent owner repo s)"
    by (rule probe_absent [OF assms])
  show "scan_repo_history fuel env cfg owner repo s = Some (Inr (0, 0, 0, 0), probed_absent owner repo s)"
    by (rule scan_absent [OF assms])
next
  assume e: "i < length repo_lines \<and>
     py_split (repo_lines ! i) = [sha256_hex env full, prev_total, prev_my, prev_add, prev_del] \<and>
     py_split_sep CHR ''/'' full = [owner, repo] \<and>
     py_int prev_total = Some t \<and> py_int prev_my = Some m \<and> py_int prev_add = Some a \<and> py_int prev_del = Some d"
  then have h: "i < length repo_lines"
    "py_split (repo_lines ! i) = [sha256_hex env full, prev_total, prev_my, prev_add, prev_del]"
    "py_split_sep CHR ''/'' full = [owner, repo]" "py_int prev_total = Some t"
    by simp_all
  show "heavy_step fuel env cfg repo_lines i full s =
       (if t = 0
        then Some (Inr (Entry (entry_line (sha256_hex env full) 0 m a d) m a d), probed_absent owner repo s)
        else Some (Inr (Entry (entry_line (sha256_hex env full) 0 0 0 0) 0 0 0),
                   probed_absent owner repo (probed_absent owner repo s)))"
    using e by (auto simp: heavy_step_entry [OF h] probe_absent [OF assms] scan_absent [OF assms])
qed

lemma one_empty_repo_absent:
  "remote one_empty_repo_env h (CommitTotalQuery ''o'' ''r'') = Response 200 (Json [] (Repository None))"
  by (simp add: one_empty_repo_env_def)

lemma one_empty_repo_hash: "sha256_hex one_empty_repo_env ''o/r'' = ''ho/r''"
  by (simp add: one_empty_repo_env_def toy_hex_def is_space_def)

lemma split_o_r: "py_split_sep CHR ''/'' ''o/r'' = [''o'', ''r'']"
  by (simp add: py_split_sep_def)

theorem empty_branch_yields_zero_or_cached_witness:
  "heavy_step 0 one_empty_repo_env (default_config ''u'') [''ho/r 5 1 10 2\<newline>''] 0 ''o/r'' fresh_state =
     Some (Inr (Entry ''ho/r 0 0 0 0\<newline>'' 0 0 0),
           probed_absent ''o'' ''r'' (probed_absent ''o'' ''r'' fresh_state)) \<and>
   heavy_step 0 one_empty_repo_env (default_config ''u'') [''ho/r 0 0 0 0\<newline>''] 0 ''o/r'' fresh_state =
     Some (Inr (Entry ''ho/r 0 0 0 0\<newline>'' 0 0 0), probed_absent ''o'' ''r'' fresh_state)"
proof -
  have m: "1 \<le> MAX_RETRIES (default_config ''u'')" by (simp add: default_config_def)
  have a: "py_split ([''ho/r 5 1 10 2\<newline>''] ! 0) = [sha256_hex one_empty_repo_env ''o/r'', ''5'', ''1'', ''10'', ''2'']"
    and b: "py_split ([''ho/r 0 0 0 0\<newline>''] ! 0) = [sha256_hex one_empty_repo_env ''o/r'', ''0'', ''0'', ''0'', ''0'']"
    by (simp_all add: py_split_def is_space_def one_empty_repo_hash)
  have e: "entry_line (sha256_hex one_empty_repo_env ''o/r'') 0 0 0 0 = ''ho/r 0 0 0 0\<newline>''"
    by (simp add: entry_line_def str_literals one_empty_repo_hash)
  show ?thesis
    using empty_branch_yields_zero_or_cached [OF one_empty_repo_absent m,
        where i = 0 and repo_lines = "[''ho/r 5 1 10 2\<newline>'']" and full = "''o/r''" and prev_total = "''5''"
          and prev_my = "''1''" and prev_add = "''10''" and prev_del = "''2''" and t = 5 and m = 1 and a = 10
          and d = 2 and fuel = 0 and s = fresh_state]
      empty_branch_yields_zero_or_cached [OF one_empty_repo_absent m,
        where i = 0 and repo_lines = "[''ho/r 0 0 0 0\<newline>'']" and full = "''o/r''" and prev_total = "''0''"
          and prev_my = "''0''" and prev_add = "''0''" and prev_del = "''0''" and t = 0 and m = 0 and a = 0
          and d = 0 and fuel = 0 and s = fresh_state]
      a b split_o_r int_literals
    by (simp add: e)
qed

lemma empty_repo_tampered_step:
  "heavy_step fuel one_empty_repo_env (default_config ''u'') [''ho/r 0 3 10 2\<newline>''] 0 ''o/r'' s =
     Some (Inr (Entry ''ho/r 0 3 10 2\<newline>'' 3 10 2), probed_absent ''o'' ''r'' s)"
proof -
  have m: "1 \<le> MAX_RETRIES (default_config ''u'')" by (simp add: default_config_def)
  have l: "0 < length [''ho/r 0 3 10 2\<newline>'']" by simp
  have a: "py_split ([''ho/r 0 3 10 2\<newline>''] ! 0) = [sha256_hex one_empty_repo_env ''o/r'', ''0'', ''3'', ''10'', ''2'']"
    by (simp add: py_split_def is_space_def one_empty_repo_hash)
  have e: "entry_line (sha256_hex one_empty_repo_env ''o/r'') 0 3 10 2 = ''ho/r 0 3 10 2\<newline>''"
    by (simp add: entry_line_def str_literals one_empty_repo_hash)
  show ?thesis
    by (simp add: heavy_step_entry [OF l a split_o_r int_literals(1)]
        probe_absent [OF one_empty_repo_absent m] int_literals e)
qed

text \<open>
  C9 as stated fails. The account has the single repository \<open>o/r\<close>, whose default branch is
  absent in the probe; the cache file holds for it the entry \<open>0 3 10 2\<close> (total 0, three
  commits of the account, +10/-2). The total 0 equals the cached total, so the cached
  numbers are reused: the pass returns \<open>(3, 10, 2, 8)\<close> and writes the entry back as it was.
\<close>

theorem empty_branch_cached_counterexample:
  "remote one_empty_repo_env [] (CommitTotalQuery ''o'' ''r'') = Response 200 (Json [] (Repository None)) \<and>
   (\<exists>s'. heavy_stats (Suc 0) one_empty_repo_env (default_config ''u'') ''u'' 0
            (fresh_state\<lparr>cache_file := Some (old_header @ [''ho/r 0 3 10 2\<newline>''])\<rparr>) =
          Some (Inr (3, 10, 2, 8), 0, s') \<and>
          cache_file s' = Some (old_header @ [''ho/r 0 3 10 2\<newline>'']))"
proof -
  let ?s0 = "fresh_state\<lparr>cache_file := Some (old_header @ [''ho/r 0 3 10 2\<newline>''])\<rparr>"
  have len: "length old_header = 5" by (simp add: old_header_def)
  have run: "heavy_stats (Suc 0) one_empty_repo_env (default_config ''u'') ''u'' 0 ?s0 =
      Some (Inr (3, 10, 2, 8), 0,
        (probed_absent ''o'' ''r''
          (?s0\<lparr>QUERY_COUNT := (QUERY_COUNT ?s0)(''loc_list_repos'' := QUERY_COUNT ?s0 ''loc_list_repos'' + 1),
                exchanges := exchanges ?s0 @
                  [(ListReposQuery ''u'' None, Response 200 (Json [] (Repositories [''o/r''] False None)))]\<rparr>))
        \<lparr>cache_file := Some (old_header @ [''ho/r 0 3 10 2\<newline>''])\<rparr>)"
    by (subst heavy_stats.simps)
       (simp add: list_repos_one init_cache_if_needed_def default_config_def [of "''u''", THEN arg_cong [of _ _ FORCE_CACHE]]
          CACHE_COMMENT_LINES_def len empty_repo_tampered_step Let_def)
  show ?thesis
    unfolding run by (simp add: one_empty_repo_absent)
qed

section \<open>Effects on the cache file and on the log of exchanges\<close>

lemma no_history_probe: "filter is_history_query (map (Pair (CommitTotalQuery owner repo)) outs) = []"
  by (induction outs) (simp_all add: is_history_query_def)

lemma no_history_listing: "filter is_history_query (map (Pair (ListReposQuery login cursor)) outs) = []"
  by (induction outs) (simp_all add: is_history_query_def)

lemma probe_cache_file: "cache_file (snd (get_repo_commit_total env cfg owner repo s)) = cache_file s"
  by (simp add: get_repo_commit_total_state gql_frame count_query_def)

lemma collect_pages_effect:
  "collect_pages fuel env cfg login cursor names s = Some (r, s') \<Longrightarrow>
   cache_file s' = cache_file s \<and> (\<exists>new. exchanges s' = exchanges s @ new \<and> filter is_history_query new = [])"
proof (induction fuel arbitrary: cursor names s)
  case 0
  then show ?case by simp
next
  case (Suc fuel)
  let ?req = "ListReposQuery login cursor"
  let ?g = "gql env cfg ?req ''loc_list_repos'' (count_query ''loc_list_repos'' s)"
  obtain x s2 where g: "?g = (x, s2)" by (cases ?g)
  have c2: "cache_file s2 = cache_file s"
    using gql_frame(2) [of env cfg ?req "''loc_list_repos''" "count_query ''loc_list_repos'' s"] g
    by (simp add: count_query_def)
  from gql_log [of env cfg ?req "''loc_list_repos''" "count_query ''loc_list_repos'' s"] g
  obtain outs where outs: "exchanges s2 = exchanges s @ map (Pair ?req) outs"
    by (auto simp: count_query_def)
  have here: "cache_file s2 = cache_file s \<and>
      (\<exists>new. exchanges s2 = exchanges s @ new \<and> filter is_history_query new = [])"
    using c2 outs no_history_listing by blast
  show ?case
  proof (cases "\<exists>edges end_cursor. x = Inr (Repositories edges True end_cursor)")
    case True
    then obtain edges end_cursor where x: "x = Inr (Repositories edges True end_cursor)" by blast
    with Suc.prems g have "collect_pages fuel env cfg login end_cursor (names @ edges) s2 = Some (r, s')"
      by (simp add: Let_def)
    from Suc.IH [OF this] obtain new where
      new: "cache_file s' = cache_file s2" "exchanges s' = exchanges s2 @ new" "filter is_history_query new = []"
      by blast
    show ?thesis
      using new outs c2 no_history_listing [of login cursor outs]
      by (intro conjI exI [of _ "map (Pair ?req) outs @ new"]) simp_all
  next
    case False
    with Suc.prems g have "s' = s2"
      by (auto simp: Let_def split: sum.splits payload.splits if_splits)
    with here show ?thesis by simp
  qed
qed

lemma scan_pages_cache_file:
  "scan_pages fuel env cfg owner repo cursor acc s = Some (r, s') \<Longrightarrow> cache_file s' = cache_file s"
proof (induction fuel arbitrary: cursor acc s)
  case 0
  then show ?case by simp
next
  case (Suc fuel)
  let ?g = "gql env cfg (CommitHistoryQuery owner repo cursor) ''loc_repo_scan'' (count_query ''loc_repo_scan'' s)"
  obtain x s2 where g: "?g = (x, s2)" by (cases ?g)
  have c2: "cache_file s2 = cache_file s"
    using gql_frame(2) [of env cfg "CommitHistoryQuery owner repo cursor" "''loc_repo_scan''" "count_query ''loc_repo_scan'' s"] g
    by (simp add: count_query_def)
  show ?case
  proof (cases "\<exists>edges end_cursor. x = Inr (Repository (Some (HistoryPage edges True end_cursor)))")
    case True
    then obtain edges end_cursor where x: "x = Inr (Repository (Some (HistoryPage edges True end_cursor)))" by blast
    with Suc.prems g have "scan_pages fuel env cfg owner repo end_cursor (scan_edges cfg edges acc) s2 = Some (r, s')"
      by (simp add: Let_def)
    from Suc.IH [OF this] c2 show ?thesis by simp
  next
    case False
    with Suc.prems g have "s' = s2"
      by (auto simp: Let_def split: sum.splits payload.splits option.splits history.splits if_splits)
    with c2 show ?thesis by simp
  qed
qed

lemma scan_repo_history_cache_file:
  "scan_repo_history fuel env cfg owner repo s = Some (r, s') \<Longrightarrow> cache_file s' = cache_file s"
  using probe_cache_file [of env cfg owner repo s]
  by (auto simp: scan_repo_history_def dest: scan_pages_cache_file
      split: prod.splits sum.splits option.splits if_splits)

lemma list_two: "length xs = 2 \<Longrightarrow> xs = [xs ! 0, xs ! 1]"
  by (cases xs; cases "tl xs") auto

lemma heavy_step_Entry:
  assumes "heavy_step fuel env cfg rl i full s = Some (Inr (Entry line my a d), s1)"
  shows "i < length rl \<and> cache_file s1 = cache_file s \<and>
    sha256_hex env full \<noteq> [] \<and> (\<forall>c \<in> set (sha256_hex env full). \<not> is_space c) \<and>
    (\<exists>owner repo t. py_split_sep CHR ''/'' full = [owner, repo] \<and>
       fst (get_repo_commit_total env cfg owner repo s) = Inr t \<and>
       line = entry_line (sha256_hex env full) t my a d)"
proof -
  let ?fields = "py_split (rl ! i)"
  let ?parts = "py_split_sep CHR ''/'' full"
  from assms have i: "i < length rl"
    by (auto simp: heavy_step_def split: if_splits)
  from assms i have f: "length ?fields = 5"
    by (auto simp: heavy_step_def Let_def split: if_splits)
  from assms i f have p: "length ?parts = 2"
    by (auto simp: heavy_step_def Let_def split: if_splits)
  from assms i f p have hash: "?fields ! 0 = sha256_hex env full"
    by (auto simp: heavy_step_def Let_def split: if_splits)
  have "?fields ! 0 \<in> set ?fields" using f by (intro nth_mem) simp
  then have word: "sha256_hex env full \<noteq> []" "\<forall>c \<in> set (sha256_hex env full). \<not> is_space c"
    using py_split_words hash by metis+
  let ?probe = "get_repo_commit_total env cfg (?parts ! 0) (?parts ! 1) s"
  obtain x sp where probe: "?probe = (x, sp)" by (cases ?probe)
  have csp: "cache_file sp = cache_file s"
    using probe_cache_file [of env cfg "?parts ! 0" "?parts ! 1" s] probe by simp
  from assms i f p hash probe obtain t where x: "x = Inr t"
    by (cases x) (auto simp: heavy_step_def Let_def)
  from assms i f p hash probe x
  have rest: "line = entry_line (sha256_hex env full) t my a d \<and> cache_file s1 = cache_file sp"
    by (auto simp: heavy_step_def Let_def dest: scan_repo_history_cache_file
        split: option.splits if_splits prod.splits sum.splits)
  have "?parts = [?parts ! 0, ?parts ! 1]" using p by (rule list_two)
  then show ?thesis
    using i word rest csp probe x by (metis fst_conv)
qed

lemma heavy_step_cache_file:
  assumes "heavy_step fuel env cfg rl i full s = Some (r, s1)"
  shows "cache_file s1 = cache_file s"
proof -
  let ?parts = "py_split_sep CHR ''/'' full"
  let ?probe = "get_repo_commit_total env cfg (?parts ! 0) (?parts ! 1) s"
  obtain x sp where probe: "?probe = (x, sp)" by (cases ?probe)
  have csp: "cache_file sp = cache_file s"
    using probe_cache_file [of env cfg "?parts ! 0" "?parts ! 1" s] probe by simp
  from assms probe csp show ?thesis
    by (auto simp: heavy_step_def Let_def dest: scan_repo_history_cache_file
        split: option.splits if_splits prod.splits sum.splits)
qed

lemma heavy_loop_cache_file:
  "heavy_loop fuel env cfg rl i repos acc s = Some (r, s') \<Longrightarrow> cache_file s' = cache_file s"
proof (induction repos arbitrary: i acc s)
  case Nil
  then show ?case by (cases acc) auto
next
  case (Cons full rest)
  obtain u m a d where acc: "acc = (u, m, a, d)" by (cases acc)
  from Cons.prems acc obtain x s1 where step: "heavy_step fuel env cfg rl i full s = Some (x, s1)"
    by (cases "heavy_step fuel env cfg rl i full s") auto
  note c1 = heavy_step_cache_file [OF step]
  show ?case
  proof (cases "\<exists>line my a1 d1. x = Inr (Entry line my a1 d1)")
    case True
    then obtain line my a1 d1 where x: "x = Inr (Entry line my a1 d1)" by blast
    with Cons.prems acc step
    have "heavy_loop fuel env cfg rl (Suc i) rest (u @ [line], m + my, a + a1, d + d1) s1 = Some (r, s')"
      by simp
    from Cons.IH [OF this] c1 show ?thesis by simp
  next
    case False
    with Cons.prems acc step have "s' = s1"
      by (auto split: sum.splits step_result.splits)
    with c1 show ?thesis by simp
  qed
qed

end
